theory Spec2Isabelle
  imports Main "HOL-Library.Word" "HOL-Library.Sublist"
begin

section \<open>The revision extractor of combine.py\<close>

text \<open>
  combine.py walks the commits that touched \<^verbatim>\<open>beer.json\<close>, parses the file as it
  was at each commit and appends one JSON line per parseable revision to
  \<^verbatim>\<open>beer_versions.jsonl\<close>. The script is glue around GitPython, the \<^verbatim>\<open>json\<close>
  module and file I/O. Those libraries are not part of the script: their calls are fields
  of the records below, each returning either the exception it raises or its value. The
  script's own control flow (what runs inside the \<^verbatim>\<open>try\<close>, what runs outside, what is
  printed and written, and in which order) is modelled line by line.
\<close>

subsection \<open>Exceptions\<close>

text \<open>
  The handler is \<^verbatim>\<open>except Exception as e\<close>: it catches instances of
  \<^verbatim>\<open>Exception\<close> and lets every other \<^verbatim>\<open>BaseException\<close> (KeyboardInterrupt,
  SystemExit) through. The string is \<^verbatim>\<open>str(e)\<close>, which the diagnostic prints.
\<close>

datatype exn = Exception string | BaseException string

subsection \<open>Values\<close>

text \<open>
  What \<^verbatim>\<open>json.loads\<close> returns: None, bool, int, float (its IEEE-754 bits), str, list
  and dict (an association list in insertion order).
\<close>

datatype json =
    JNull
  | JBool bool
  | JInt int
  | JFloat "64 word"
  | JStr string
  | JArr "json list"
  | JObj "(string \<times> json) list"

type_synonym bytes = "8 word list"

subsection \<open>The repository, as GitPython presents it\<close>

record blob =
  data_stream_read :: "exn + bytes"  \<comment> \<open>\<^verbatim>\<open>file_blob.data_stream.read()\<close>\<close>

record commit =
  hexsha :: "exn + string"  \<comment> \<open>\<^verbatim>\<open>commit.hexsha\<close>\<close>
  committed_datetime_isoformat :: "exn + string"  \<comment> \<open>\<^verbatim>\<open>commit.committed_datetime.isoformat()\<close>\<close>
  tree_div :: "string \<Rightarrow> exn + blob"  \<comment> \<open>\<^verbatim>\<open>commit.tree / path\<close>\<close>

record repo =
  iter_commits :: "string \<Rightarrow> exn + commit list"  \<comment> \<open>\<^verbatim>\<open>list(repo.iter_commits(paths=path))\<close>\<close>

subsection \<open>Everything outside the script\<close>

record world =
  Repo :: "string \<Rightarrow> exn + repo"  \<comment> \<open>\<^verbatim>\<open>Repo(path)\<close>\<close>
  decode_utf8 :: "bytes \<Rightarrow> exn + string"  \<comment> \<open>\<^verbatim>\<open>bytes.decode("utf-8")\<close>\<close>
  json_loads :: "string \<Rightarrow> exn + json"  \<comment> \<open>\<^verbatim>\<open>json.loads\<close>\<close>
  json_dumps :: "json \<Rightarrow> exn + string"  \<comment> \<open>\<^verbatim>\<open>json.dumps\<close>\<close>
  open_error :: "string \<Rightarrow> exn option"  \<comment> \<open>what \<^verbatim>\<open>open(path, "w")\<close> raises, if anything\<close>
  write_error :: "string \<Rightarrow> string \<Rightarrow> exn option"
    \<comment> \<open>what \<^verbatim>\<open>outfile.write(s)\<close> raises, if anything, given the contents so far and \<open>s\<close>\<close>
  close_error :: "string \<Rightarrow> exn option"
    \<comment> \<open>what flushing and closing \<^verbatim>\<open>outfile\<close> raises, if anything, given the text written\<close>

subsection \<open>The state the script changes\<close>

text \<open>
  \<open>stdout\<close> holds one entry per \<^verbatim>\<open>print\<close> call, \<open>files\<close> maps a path to the
  contents of the file there, and \<open>reads\<close> logs the hash of the commit at every
  \<^verbatim>\<open>data_stream.read()\<close> call.
\<close>

record state =
  stdout :: "string list"
  files :: "string \<rightharpoonup> string"
  reads :: "string list"

definition LOCAL_DIR :: string where
  "LOCAL_DIR = ''.''"

definition JSON_FILENAME :: string where
  "JSON_FILENAME = ''beer.json''"

definition OUTPUT_FILE :: string where
  "OUTPUT_FILE = ''beer_versions.jsonl''"

definition newline :: char where
  "newline = CHR 0x0A"

subsection \<open>Formatting\<close>

definition digit_char :: "nat \<Rightarrow> char" where
  "digit_char d = ''0123456789'' ! d"

fun str_nat :: "nat \<Rightarrow> string" where
  "str_nat n = (if n < 10 then [digit_char n] else str_nat (n div 10) @ [digit_char (n mod 10)])"

declare str_nat.simps [simp del]

definition found_msg :: "nat \<Rightarrow> string" where
  "found_msg n = ''Found '' @ str_nat n @ '' commits affecting '' @ JSON_FILENAME"

definition skip_msg :: "string \<Rightarrow> string \<Rightarrow> string" where
  "skip_msg commit_hash e = ''Skipping commit '' @ commit_hash @ '' due to error: '' @ e"

definition done_msg :: string where
  "done_msg = ''All versions extracted into '' @ OUTPUT_FILE"

definition print :: "string \<Rightarrow> state \<Rightarrow> state" where
  "print s st = st\<lparr>stdout := stdout st @ [s]\<rparr>"

subsection \<open>The output file\<close>

definition contents :: "state \<Rightarrow> string \<Rightarrow> string" where
  "contents st p = (case files st p of None \<Rightarrow> [] | Some t \<Rightarrow> t)"

definition fopen_w :: "world \<Rightarrow> string \<Rightarrow> state \<Rightarrow> exn + state" where
  "fopen_w w p st =
     (case open_error w p of
        Some e \<Rightarrow> Inl e
      | None \<Rightarrow> Inr (st\<lparr>files := (files st)(p \<mapsto> [])\<rparr>))"

definition fwrite :: "world \<Rightarrow> string \<Rightarrow> string \<Rightarrow> state \<Rightarrow> exn + state" where
  "fwrite w p s st =
     (case write_error w (contents st p) s of
        Some e \<Rightarrow> Inl e
      | None \<Rightarrow> Inr (st\<lparr>files := (files st)(p \<mapsto> contents st p @ s)\<rparr>))"

text \<open>
  Leaving the \<^verbatim>\<open>with\<close> block closes the file, which flushes what the buffered writes
  have left pending; a write that the system refuses then raises here. With nothing
  written there is nothing to flush.
\<close>

definition fclose :: "world \<Rightarrow> string \<Rightarrow> state \<Rightarrow> exn option" where
  "fclose w p st = (if contents st p = [] then None else close_error w (contents st p))"

subsection \<open>The body of the try block (lines 25 to 27)\<close>

definition try_body :: "world \<Rightarrow> commit \<Rightarrow> string \<Rightarrow> state \<Rightarrow> (exn + json) \<times> state" where
  "try_body w c commit_hash st =
     (case tree_div c JSON_FILENAME of
        Inl e \<Rightarrow> (Inl e, st)
      | Inr file_blob \<Rightarrow>
          (let st1 = st\<lparr>reads := reads st @ [commit_hash]\<rparr> in
           case data_stream_read file_blob of
             Inl e \<Rightarrow> (Inl e, st1)
           | Inr raw \<Rightarrow>
               (case decode_utf8 w raw of
                  Inl e \<Rightarrow> (Inl e, st1)
                | Inr file_contents \<Rightarrow> (json_loads w file_contents, st1))))"

subsection \<open>The record (lines 33 to 37)\<close>

definition mk_record :: "string \<Rightarrow> string \<Rightarrow> json \<Rightarrow> json" where
  "mk_record commit_hash timestamp data =
     JObj [(''commit'', JStr commit_hash), (''timestamp'', JStr timestamp), (''data'', data)]"

subsection \<open>The loop body and the loop (lines 19 to 40)\<close>

definition process :: "world \<Rightarrow> commit \<Rightarrow> state \<Rightarrow> exn option \<times> state" where
  "process w c st =
     (case hexsha c of
        Inl e \<Rightarrow> (Some e, st)
      | Inr commit_hash \<Rightarrow>
          (case committed_datetime_isoformat c of
             Inl e \<Rightarrow> (Some e, st)
           | Inr timestamp \<Rightarrow>
               (case try_body w c commit_hash st of
                  (Inl (Exception m), st1) \<Rightarrow> (None, print (skip_msg commit_hash m) st1)
                | (Inl (BaseException m), st1) \<Rightarrow> (Some (BaseException m), st1)
                | (Inr data, st1) \<Rightarrow>
                    (case json_dumps w (mk_record commit_hash timestamp data) of
                       Inl e \<Rightarrow> (Some e, st1)
                     | Inr line \<Rightarrow>
                         (case fwrite w OUTPUT_FILE (line @ [newline]) st1 of
                            Inl e \<Rightarrow> (Some e, st1)
                          | Inr st2 \<Rightarrow> (None, st2))))))"

fun loop :: "world \<Rightarrow> commit list \<Rightarrow> state \<Rightarrow> exn option \<times> state" where
  "loop w [] st = (None, st)"
| "loop w (c # cs) st =
     (case process w c st of
        (Some e, st1) \<Rightarrow> (Some e, st1)
      | (None, st1) \<Rightarrow> loop w cs st1)"

subsection \<open>The script\<close>

text \<open>
  \<open>main w fs\<close> runs the script in the world \<open>w\<close> on the file system \<open>fs\<close>. It returns
  the uncaught exception, or None on a normal exit, and the final state. The \<^verbatim>\<open>with\<close>
  block closes the file on the way out, whether the loop ended or raised; an exception
  of the close is the one that leaves the block.
\<close>

definition main :: "world \<Rightarrow> (string \<rightharpoonup> string) \<Rightarrow> exn option \<times> state" where
  "main w fs =
     (let st0 = \<lparr>stdout = [], files = fs, reads = []\<rparr> in
      case Repo w LOCAL_DIR of
        Inl e \<Rightarrow> (Some e, st0)
      | Inr r \<Rightarrow>
          (case iter_commits r JSON_FILENAME of
             Inl e \<Rightarrow> (Some e, st0)
           | Inr commits \<Rightarrow>
               (let st1 = print (found_msg (length commits)) st0 in
                case fopen_w w OUTPUT_FILE st1 of
                  Inl e \<Rightarrow> (Some e, st1)
                | Inr st2 \<Rightarrow>
                    (case loop w commits st2 of
                       (raised, st3) \<Rightarrow>
                         (case fclose w OUTPUT_FILE st3 of
                            Some e \<Rightarrow> (Some e, st3)
                          | None \<Rightarrow>
                              (case raised of
                                 Some e \<Rightarrow> (Some e, st3)
                               | None \<Rightarrow> (None, print done_msg st3)))))))"

section \<open>Vocabulary of the specification\<close>

subsection \<open>What a commit yields\<close>

text \<open>
  The per-commit extraction of the specification, steps 1 to 3: resolve the blob at
  \<^verbatim>\<open>beer.json\<close> in the commit's tree and read it, decode its bytes as UTF-8, parse
  the text as JSON. The result is the parsed value or the first failure.
\<close>

definition extraction :: "world \<Rightarrow> commit \<Rightarrow> exn + json" where
  "extraction w c =
     (case tree_div c ''beer.json'' of
        Inl e \<Rightarrow> Inl e
      | Inr b \<Rightarrow>
          (case data_stream_read b of
             Inl e \<Rightarrow> Inl e
           | Inr raw \<Rightarrow>
               (case decode_utf8 w raw of
                  Inl e \<Rightarrow> Inl e
                | Inr txt \<Rightarrow> json_loads w txt)))"

definition parses :: "world \<Rightarrow> commit \<Rightarrow> bool" where
  "parses w c = (case extraction w c of Inr _ \<Rightarrow> True | Inl _ \<Rightarrow> False)"

text \<open>
  The Revision Record of the specification's data model, as the output file shows it: an
  object with the keys \<open>commit\<close> (the full hash), \<open>timestamp\<close> (the commit time) and
  \<open>data\<close> (the parsed value), for a commit whose content parses.
\<close>

definition revision_record :: "world \<Rightarrow> commit \<Rightarrow> json option" where
  "revision_record w c =
     (case hexsha c of
        Inl _ \<Rightarrow> None
      | Inr h \<Rightarrow>
          (case committed_datetime_isoformat c of
             Inl _ \<Rightarrow> None
           | Inr t \<Rightarrow>
               (case extraction w c of
                  Inl _ \<Rightarrow> None
                | Inr d \<Rightarrow>
                    Some (JObj [(''commit'', JStr h), (''timestamp'', JStr t), (''data'', d)]))))"

text \<open>
  What a commit leaves behind when the loop gets past it: \<open>line_of\<close> is the line written
  for it, \<open>diag_of\<close> the diagnostic printed for it, \<open>read_of\<close> its entry in the log of
  reads.
\<close>

definition line_of :: "world \<Rightarrow> commit \<Rightarrow> string option" where
  "line_of w c =
     (case revision_record w c of
        None \<Rightarrow> None
      | Some r \<Rightarrow> (case json_dumps w r of Inl _ \<Rightarrow> None | Inr l \<Rightarrow> Some l))"

definition diag_of :: "world \<Rightarrow> commit \<Rightarrow> string option" where
  "diag_of w c =
     (case hexsha c of
        Inl _ \<Rightarrow> None
      | Inr h \<Rightarrow>
          (case extraction w c of
             Inl (Exception m) \<Rightarrow> Some (''Skipping commit '' @ h @ '' due to error: '' @ m)
           | _ \<Rightarrow> None))"

definition read_of :: "commit \<Rightarrow> string option" where
  "read_of c =
     (case hexsha c of
        Inl _ \<Rightarrow> None
      | Inr h \<Rightarrow> (case tree_div c ''beer.json'' of Inl _ \<Rightarrow> None | Inr _ \<Rightarrow> Some h))"

subsection \<open>Reading the output file back\<close>

text \<open>
  The lines of a text, each ended by a newline; a last line without one counts too.
\<close>

fun lines_acc :: "string \<Rightarrow> string \<Rightarrow> string list" where
  "lines_acc cur [] = (if cur = [] then [] else [cur])"
| "lines_acc cur (x # xs) =
     (if x = newline then cur # lines_acc [] xs else lines_acc (cur @ [x]) xs)"

definition split_lines :: "string \<Rightarrow> string list" where
  "split_lines s = lines_acc [] s"

definition output_lines :: "state \<Rightarrow> string list" where
  "output_lines st = split_lines (contents st ''beer_versions.jsonl'')"

definition unlines :: "string list \<Rightarrow> string" where
  "unlines ls = concat (map (\<lambda>l. l @ [newline]) ls)"

text \<open>The value under key \<open>k\<close> of a line parsed on its own.\<close>

definition line_field :: "world \<Rightarrow> string \<Rightarrow> string \<Rightarrow> json option" where
  "line_field w k l =
     (case json_loads w l of
        Inr (JObj kvs) \<Rightarrow> map_of kvs k
      | _ \<Rightarrow> None)"

subsection \<open>What is assumed of the libraries\<close>

text \<open>
  \<^verbatim>\<open>json.dumps\<close> with its default arguments writes no newline, and \<^verbatim>\<open>json.loads\<close>
  reads back what \<^verbatim>\<open>json.dumps\<close> wrote. Both are asked only of the records of the
  commits at hand.
\<close>

definition single_line :: "world \<Rightarrow> commit list \<Rightarrow> bool" where
  "single_line w cs =
     list_all (\<lambda>c. case line_of w c of None \<Rightarrow> True | Some l \<Rightarrow> newline \<notin> set l) cs"

definition round_trip :: "world \<Rightarrow> commit list \<Rightarrow> bool" where
  "round_trip w cs =
     list_all (\<lambda>c. case revision_record w c of
                      None \<Rightarrow> True
                    | Some r \<Rightarrow>
                        (case json_dumps w r of
                           Inl _ \<Rightarrow> True
                         | Inr l \<Rightarrow> json_loads w l = Inr r)) cs"

text \<open>A commit hash is 40 or more hexadecimal digits.\<close>

definition is_hex :: "char \<Rightarrow> bool" where
  "is_hex ch = (ch \<in> set ''0123456789abcdefABCDEF'')"

definition valid_hexsha :: "string \<Rightarrow> bool" where
  "valid_hexsha h = (40 \<le> length h \<and> list_all is_hex h)"

definition hashes_valid :: "commit list \<Rightarrow> bool" where
  "hashes_valid cs =
     list_all (\<lambda>c. case hexsha c of Inl _ \<Rightarrow> True | Inr h \<Rightarrow> valid_hexsha h) cs"

subsection \<open>Reading the console back\<close>

definition is_skip_diag :: "string \<Rightarrow> bool" where
  "is_skip_diag p = prefix ''Skipping commit '' p"

definition names_commit :: "string \<Rightarrow> string \<Rightarrow> bool" where
  "names_commit h p = prefix (''Skipping commit '' @ h @ '' due to error: '') p"

subsection \<open>Errors that leave the loop\<close>




subsection \<open>Reading a printed number back\<close>

text \<open>The number a string of decimal digits stands for; None when it is not one.\<close>

definition digit_val :: "char \<Rightarrow> nat option" where
  "digit_val ch =
     (if ch = CHR ''0'' then Some 0 else if ch = CHR ''1'' then Some 1
      else if ch = CHR ''2'' then Some 2 else if ch = CHR ''3'' then Some 3
      else if ch = CHR ''4'' then Some 4 else if ch = CHR ''5'' then Some 5
      else if ch = CHR ''6'' then Some 6 else if ch = CHR ''7'' then Some 7
      else if ch = CHR ''8'' then Some 8 else if ch = CHR ''9'' then Some 9
      else None)"

fun read_nat_acc :: "nat \<Rightarrow> string \<Rightarrow> nat option" where
  "read_nat_acc n [] = Some n"
| "read_nat_acc n (ch # rest) =
     (case digit_val ch of None \<Rightarrow> None | Some d \<Rightarrow> read_nat_acc (10 * n + d) rest)"

definition read_nat :: "string \<Rightarrow> nat option" where
  "read_nat s = (if s = [] then None else read_nat_acc 0 s)"

subsection \<open>Commits the loop gets past\<close>

text \<open>
  A commit the loop gets past: hash and timestamp are there, and it leaves a line exactly
  when its content parses and a diagnostic exactly when it does not.
\<close>

definition completes :: "world \<Rightarrow> commit \<Rightarrow> bool" where
  "completes w c =
     ((\<exists>h. hexsha c = Inr h) \<and> (\<exists>t. committed_datetime_isoformat c = Inr t) \<and>
      (line_of w c \<noteq> None \<longleftrightarrow> parses w c) \<and> (diag_of w c \<noteq> None \<longleftrightarrow> \<not> parses w c))"

section \<open>The scenario of the specification, with a removal\<close>

text \<open>
  The file is introduced as \<^verbatim>\<open>{"a":1}\<close>, removed, restored as \<^verbatim>\<open>{"a":2}\<close> and
  cut to \<^verbatim>\<open>{"a":\<close> at the tip. The walk yields the newest commit first. The
  library calls answer on the values of the scenario and raise on all others.
\<close>

definition demo_hash_tip :: string where
  "demo_hash_tip = ''9f2c4e1a7b3d5f60819a2b3c4d5e6f7081920a1b''"

definition demo_hash_second :: string where
  "demo_hash_second = ''4b8d0e2f6a1c3e5079b1d3f507192b3d4f617385''"

definition demo_hash_removed :: string where
  "demo_hash_removed = ''70c1d2e3f4a5b6c7d8e9f0a1b2c3d4e5f6a7b8c9''"

definition demo_hash_first :: string where
  "demo_hash_first = ''e07a1c3b5d7f9021436587a9cbed0f1132547698''"

definition demo_commit :: "string \<Rightarrow> string \<Rightarrow> bytes option \<Rightarrow> commit" where
  "demo_commit h t content =
     \<lparr>hexsha = Inr h,
      committed_datetime_isoformat = Inr t,
      tree_div = (\<lambda>p. case content of
                         Some raw \<Rightarrow> if p = ''beer.json'' then Inr \<lparr>data_stream_read = Inr raw\<rparr>
                                      else Inl (Exception ''not found'')
                       | None \<Rightarrow> Inl (Exception ''not found''))\<rparr>"

definition demo_tip :: commit where
  "demo_tip =
     demo_commit demo_hash_tip ''2024-03-04T09:30:00+11:00'' (Some [0x7B, 0x22, 0x61, 0x22, 0x3A])"

definition demo_second :: commit where
  "demo_second =
     demo_commit demo_hash_second ''2024-03-03T18:05:12+11:00''
       (Some [0x7B, 0x22, 0x61, 0x22, 0x3A, 0x32, 0x7D])"

definition demo_removed :: commit where
  "demo_removed = demo_commit demo_hash_removed ''2024-03-02T08:00:00+11:00'' None"

definition demo_first :: commit where
  "demo_first =
     demo_commit demo_hash_first ''2024-03-01T12:00:00+11:00''
       (Some [0x7B, 0x22, 0x61, 0x22, 0x3A, 0x31, 0x7D])"

definition demo_commits :: "commit list" where
  "demo_commits = [demo_tip, demo_second, demo_removed, demo_first]"

definition demo_repo :: repo where
  "demo_repo = \<lparr>iter_commits = (\<lambda>q. Inr demo_commits)\<rparr>"

definition demo_line_second :: string where
  \<open>demo_line_second =
     ''{"commit": "4b8d0e2f6a1c3e5079b1d3f507192b3d4f617385", "timestamp": "2024-03-03T18:05:12+11:00", "data": {"a": 2}}''\<close>

definition demo_line_first :: string where
  \<open>demo_line_first =
     ''{"commit": "e07a1c3b5d7f9021436587a9cbed0f1132547698", "timestamp": "2024-03-01T12:00:00+11:00", "data": {"a": 1}}''\<close>

definition demo_record_second :: json where
  "demo_record_second =
     JObj [(''commit'', JStr demo_hash_second),
           (''timestamp'', JStr ''2024-03-03T18:05:12+11:00''),
           (''data'', JObj [(''a'', JInt 2)])]"

definition demo_record_first :: json where
  "demo_record_first =
     JObj [(''commit'', JStr demo_hash_first),
           (''timestamp'', JStr ''2024-03-01T12:00:00+11:00''),
           (''data'', JObj [(''a'', JInt 1)])]"

definition demo_decode :: "bytes \<Rightarrow> exn + string" where
  \<open>demo_decode raw =
     (if raw = [0x7B, 0x22, 0x61, 0x22, 0x3A] then Inr ''{"a":''
      else if raw = [0x7B, 0x22, 0x61, 0x22, 0x3A, 0x32, 0x7D] then Inr ''{"a":2}''
      else if raw = [0x7B, 0x22, 0x61, 0x22, 0x3A, 0x31, 0x7D] then Inr ''{"a":1}''
      else Inl (Exception ''invalid start byte''))\<close>

definition demo_loads :: "string \<Rightarrow> exn + json" where
  \<open>demo_loads s =
     (if s = ''{"a":2}'' then Inr (JObj [(''a'', JInt 2)])
      else if s = ''{"a":1}'' then Inr (JObj [(''a'', JInt 1)])
      else if s = demo_line_second then Inr demo_record_second
      else if s = demo_line_first then Inr demo_record_first
      else Inl (Exception ''Expecting value: line 1 column 6 (char 5)''))\<close>

definition demo_dumps :: "json \<Rightarrow> exn + string" where
  "demo_dumps v =
     (if v = demo_record_second then Inr demo_line_second
      else if v = demo_record_first then Inr demo_line_first
      else Inl (Exception ''not serializable''))"

definition demo_world :: world where
  "demo_world =
     \<lparr>Repo = (\<lambda>p. if p = ''.'' then Inr demo_repo
                  else Inl (Exception ''no such path'')),
      decode_utf8 = demo_decode,
      json_loads = demo_loads,
      json_dumps = demo_dumps,
      open_error = (\<lambda>p. None),
      write_error = (\<lambda>t s. None),
      close_error = (\<lambda>t. None)\<rparr>"

definition demo_final :: state where
  "demo_final =
     \<lparr>stdout = [''Found 4 commits affecting beer.json'',
                 ''Skipping commit 9f2c4e1a7b3d5f60819a2b3c4d5e6f7081920a1b due to error: Expecting value: line 1 column 6 (char 5)'',
                 ''Skipping commit 70c1d2e3f4a5b6c7d8e9f0a1b2c3d4e5f6a7b8c9 due to error: not found'',
                 ''All versions extracted into beer_versions.jsonl''],
      files = [''beer_versions.jsonl'' \<mapsto>
                 demo_line_second @ [newline] @ demo_line_first @ [newline]],
      reads = [demo_hash_tip, demo_hash_second, demo_hash_first]\<rparr>"

subsection \<open>Two more worlds\<close>

text \<open>A repository where no commit touched the file.\<close>

definition demo_empty_world :: world where
  "demo_empty_world = demo_world\<lparr>Repo := \<lambda>p. Inr \<lparr>iter_commits = (\<lambda>q. Inr [])\<rparr>\<rparr>"



section \<open>The loop, one commit at a time\<close>

text \<open>The try block computes the extraction and logs the read.\<close>

lemma try_body_fst: "fst (try_body w c h st) = extraction w c"
  by (simp add: extraction_def try_body_def JSON_FILENAME_def Let_def split: sum.splits)

lemma try_body_snd:
  "snd (try_body w c h st) =
     st\<lparr>reads := reads st @ (case tree_div c ''beer.json'' of Inl _ \<Rightarrow> [] | Inr _ \<Rightarrow> [h])\<rparr>"
  by (simp add: try_body_def JSON_FILENAME_def Let_def split: sum.splits)

lemma try_body_eq:
  "try_body w c h st =
     (extraction w c,
      st\<lparr>reads := reads st @ (case tree_div c ''beer.json'' of Inl _ \<Rightarrow> [] | Inr _ \<Rightarrow> [h])\<rparr>)"
  using try_body_fst [of w c h st] try_body_snd [of w c h st]
  by (metis prod.collapse)

lemma process_None:
  assumes "process w c st = (None, st')"
  shows "\<exists>h t. hexsha c = Inr h \<and> committed_datetime_isoformat c = Inr t \<and>
           reads st' = reads st @ (case read_of c of None \<Rightarrow> [] | Some x \<Rightarrow> [x]) \<and>
           ((\<exists>m. extraction w c = Inl (Exception m) \<and>
                 stdout st' = stdout st @ [''Skipping commit '' @ h @ '' due to error: '' @ m] \<and>
                 files st' = files st) \<or>
            (\<exists>d l. extraction w c = Inr d \<and>
                   json_dumps w (JObj [(''commit'', JStr h), (''timestamp'', JStr t), (''data'', d)])
                     = Inr l \<and>
                   stdout st' = stdout st \<and>
                   files st' = (files st)(OUTPUT_FILE \<mapsto> contents st OUTPUT_FILE @ l @ [newline])))"
  using assms
  by (auto simp: process_def try_body_eq print_def fwrite_def contents_def read_of_def
      skip_msg_def mk_record_def
      split: sum.splits exn.splits option.splits)

lemma process_None_summary:
  assumes "process w c st = (None, st')"
  shows "stdout st' = stdout st @ (case diag_of w c of None \<Rightarrow> [] | Some x \<Rightarrow> [x])"
    and "files st' = (case line_of w c of None \<Rightarrow> files st
                      | Some l \<Rightarrow> (files st)(OUTPUT_FILE \<mapsto> contents st OUTPUT_FILE @ l @ [newline]))"
    and "reads st' = reads st @ (case read_of c of None \<Rightarrow> [] | Some x \<Rightarrow> [x])"
    and "completes w c"
  using process_None [OF assms]
  by (auto simp: diag_of_def line_of_def revision_record_def parses_def completes_def)

subsection \<open>A run that exits normally\<close>

lemma loop_None:
  assumes "loop w cs st = (None, st')" and "files st OUTPUT_FILE = Some t"
  shows "stdout st' = stdout st @ List.map_filter (diag_of w) cs \<and>
         files st' = (files st)(OUTPUT_FILE \<mapsto> t @ unlines (List.map_filter (line_of w) cs)) \<and>
         reads st' = reads st @ List.map_filter read_of cs \<and>
         list_all (completes w) cs"
  using assms
proof (induction cs arbitrary: st t)
  case Nil
  then show ?case by (auto simp: map_filter_simps unlines_def)
next
  case (Cons c cs)
  from Cons.prems(1) obtain st1 where p: "process w c st = (None, st1)"
    and l: "loop w cs st1 = (None, st')"
    by (auto split: prod.splits option.splits)
  note s = process_None_summary [OF p]
  show ?case
  proof (cases "line_of w c")
    case None
    with s(2) Cons.prems(2) have f: "files st1 OUTPUT_FILE = Some t" and f': "files st1 = files st" by simp_all
    from Cons.IH [OF l f] s(1,3,4) None f' show ?thesis
      by (simp add: map_filter_simps split: option.splits)
  next
    case (Some x)
    with s(2) Cons.prems(2) have f: "files st1 OUTPUT_FILE = Some (t @ x @ [newline])"
      and f': "files st1 = (files st)(OUTPUT_FILE \<mapsto> t @ x @ [newline])"
      by (simp_all add: contents_def)
    from Cons.IH [OF l f] s(1,3,4) Some f' show ?thesis
      by (auto simp: map_filter_simps unlines_def fun_eq_iff split: option.splits)
  qed
qed

lemma main_after_open:
  assumes "Repo w LOCAL_DIR = Inr r" and "iter_commits r JSON_FILENAME = Inr commits"
    and "open_error w OUTPUT_FILE = None"
  shows "main w fs =
     (case loop w commits \<lparr>stdout = [found_msg (length commits)],
                            files = fs(OUTPUT_FILE \<mapsto> []), reads = []\<rparr> of
        (raised, st3) \<Rightarrow>
          (case fclose w OUTPUT_FILE st3 of
             Some e \<Rightarrow> (Some e, st3)
           | None \<Rightarrow>
               (case raised of
                  Some e \<Rightarrow> (Some e, st3)
                | None \<Rightarrow> (None, print done_msg st3))))"
  using assms by (simp add: main_def fopen_w_def print_def)

lemma main_not_opened:
  assumes "Repo w LOCAL_DIR = Inr r" and "iter_commits r JSON_FILENAME = Inr commits"
    and "open_error w OUTPUT_FILE = Some e"
  shows "main w fs =
     (Some e, \<lparr>stdout = [found_msg (length commits)], files = fs, reads = []\<rparr>)"
  using assms by (simp add: main_def fopen_w_def print_def)

lemma main_None:
  assumes "main w fs = (None, st)"
    and "Repo w LOCAL_DIR = Inr r" and "iter_commits r JSON_FILENAME = Inr commits"
  shows "stdout st = found_msg (length commits) # List.map_filter (diag_of w) commits @ [done_msg]"
    and "files st = fs(OUTPUT_FILE \<mapsto> unlines (List.map_filter (line_of w) commits))"
    and "reads st = List.map_filter read_of commits"
    and "list_all (completes w) commits"
proof -
  define st2 where "st2 = \<lparr>stdout = [found_msg (length commits)],
                             files = fs(OUTPUT_FILE \<mapsto> []), reads = []\<rparr>"
  have o: "open_error w OUTPUT_FILE = None"
  proof (cases "open_error w OUTPUT_FILE")
    case None
    then show ?thesis .
  next
    case (Some e)
    from main_not_opened [OF assms(2,3) Some, of fs] assms(1) show ?thesis by simp
  qed
  obtain raised st3 where l0: "loop w commits st2 = (raised, st3)" by (cases "loop w commits st2")
  with main_after_open [OF assms(2,3) o, of fs] assms(1)
  have "raised = None \<and> st = print done_msg st3"
    by (auto simp: st2_def split: option.splits)
  then have l: "loop w commits st2 = (None, st3)" and e: "st = print done_msg st3"
    using l0 by simp_all
  have f: "files st2 OUTPUT_FILE = Some []" by (simp add: st2_def)
  note L = loop_None [OF l f]
  from L e show "stdout st = found_msg (length commits) # List.map_filter (diag_of w) commits @ [done_msg]"
    by (simp add: print_def st2_def)
  from L e show "files st = fs(OUTPUT_FILE \<mapsto> unlines (List.map_filter (line_of w) commits))"
    by (simp add: print_def st2_def)
  from L e show "reads st = List.map_filter read_of commits"
    by (simp add: print_def st2_def)
  from L show "list_all (completes w) commits" by simp
qed

subsection \<open>Lines written, lines read back\<close>

lemma lines_acc_line:
  "newline \<notin> set l \<Longrightarrow> lines_acc cur (l @ newline # rest) = (cur @ l) # lines_acc [] rest"
  by (induction l arbitrary: cur) auto

lemma split_lines_unlines:
  "list_all (\<lambda>l. newline \<notin> set l) ls \<Longrightarrow> split_lines (unlines ls) = ls"
  unfolding split_lines_def unlines_def
proof (induction ls)
  case Nil
  then show ?case by simp
next
  case (Cons l ls)
  then show ?case using lines_acc_line [of l "[]"] by simp
qed

lemma single_line_map_filter:
  "single_line w cs \<Longrightarrow> list_all (\<lambda>l. newline \<notin> set l) (List.map_filter (line_of w) cs)"
  by (induction cs) (auto simp: single_line_def map_filter_simps split: option.splits)

lemma main_output_lines:
  assumes "main w fs = (None, st)"
    and "Repo w LOCAL_DIR = Inr r" and "iter_commits r JSON_FILENAME = Inr commits"
    and "single_line w commits"
  shows "output_lines st = List.map_filter (line_of w) commits"
  using main_None(2) [OF assms(1-3)] single_line_map_filter [OF assms(4)]
  by (simp add: output_lines_def contents_def OUTPUT_FILE_def split_lines_unlines)

section \<open>The scenario, run\<close>

lemmas demo_defs = demo_world_def demo_repo_def demo_commits_def demo_tip_def demo_second_def
  demo_removed_def demo_first_def demo_commit_def demo_decode_def demo_loads_def
  demo_dumps_def demo_record_second_def demo_record_first_def demo_line_second_def
  demo_line_first_def demo_hash_tip_def demo_hash_second_def demo_hash_removed_def
  demo_hash_first_def

lemmas run_defs = main_def process_def try_body_def fopen_w_def fwrite_def fclose_def contents_def
  print_def
  mk_record_def found_msg_def skip_msg_def done_msg_def LOCAL_DIR_def JSON_FILENAME_def
  OUTPUT_FILE_def Let_def digit_char_def

lemma demo_run: "main demo_world Map.empty = (None, demo_final)"
  by (simp add: demo_defs run_defs demo_final_def str_nat.simps)


lemma demo_repo_open: "Repo demo_world LOCAL_DIR = Inr demo_repo"
  by (simp add: demo_world_def LOCAL_DIR_def)

lemma demo_iter_commits: "iter_commits demo_repo JSON_FILENAME = Inr demo_commits"
  by (simp add: demo_repo_def)

lemma demo_distinct: "distinct (map hexsha demo_commits)"
  by (simp add: demo_defs)

lemma demo_hashes_valid: "hashes_valid demo_commits"
  by (simp add: demo_defs hashes_valid_def valid_hexsha_def is_hex_def)

lemma demo_extraction:
  "extraction demo_world demo_tip = Inl (Exception ''Expecting value: line 1 column 6 (char 5)'')"
  "extraction demo_world demo_second = Inr (JObj [(''a'', JInt 2)])"
  "extraction demo_world demo_removed = Inl (Exception ''not found'')"
  "extraction demo_world demo_first = Inr (JObj [(''a'', JInt 1)])"
  by (simp_all add: demo_defs extraction_def)

lemma demo_line_of:
  "line_of demo_world demo_tip = None"
  "line_of demo_world demo_second = Some demo_line_second"
  "line_of demo_world demo_removed = None"
  "line_of demo_world demo_first = Some demo_line_first"
  by (simp_all add: line_of_def revision_record_def extraction_def demo_defs)

lemma demo_single_line: "single_line demo_world demo_commits"
  by (simp add: single_line_def demo_commits_def demo_line_of)
     (simp add: demo_line_second_def demo_line_first_def newline_def)

lemma demo_round_trip: "round_trip demo_world demo_commits"
  by (simp add: round_trip_def revision_record_def extraction_def demo_defs)

lemma demo_output_lines: "output_lines demo_final = [demo_line_second, demo_line_first]"
  by (simp add: output_lines_def contents_def demo_final_def split_lines_def
      demo_line_second_def demo_line_first_def newline_def)

section \<open>The claims on a run that exits normally\<close>

subsection \<open>Lists\<close>

lemma map_filter_as_map:
  "List.map_filter f xs = map (\<lambda>x. the (f x)) (filter (\<lambda>x. f x \<noteq> None) xs)"
  by (simp add: List.map_filter_def comp_def)

lemma filter_map_filter:
  "filter P (List.map_filter f xs) =
     map (\<lambda>x. the (f x)) (filter (\<lambda>x. f x \<noteq> None \<and> P (the (f x))) xs)"
  by (induction xs) (auto simp: map_filter_simps split: option.splits)

lemma filter_same_key:
  "distinct (map g cs) \<Longrightarrow> c \<in> set cs \<Longrightarrow> filter (\<lambda>x. g x = g c) cs = [c]"
proof (induction cs)
  case Nil
  then show ?case by simp
next
  case (Cons a cs)
  show ?case
  proof (cases "a = c")
    case True
    with Cons.prems have "g c \<notin> g ` set cs" by simp
    then have "\<forall>x\<in>set cs. g x \<noteq> g c" by (metis image_eqI)
    then have "filter (\<lambda>x. g x = g c) cs = []" by (simp add: filter_empty_conv)
    with True show ?thesis by simp
  next
    case False
    with Cons.prems have "c \<in> set cs" and "g a \<noteq> g c" by auto
    with Cons show ?thesis by simp
  qed
qed

lemma same_key_same_commit:
  "distinct (map g cs) \<Longrightarrow> c \<in> set cs \<Longrightarrow> c' \<in> set cs \<Longrightarrow> g c' = g c \<Longrightarrow> c' = c"
  by (meson distinct_map inj_on_def)

subsection \<open>What a written line reads back as\<close>

lemma line_fields:
  assumes "round_trip w cs" and "c \<in> set cs" and "line_of w c = Some l"
  shows "\<exists>h t d. hexsha c = Inr h \<and> committed_datetime_isoformat c = Inr t \<and>
           extraction w c = Inr d \<and>
           json_loads w l = Inr (JObj [(''commit'', JStr h), (''timestamp'', JStr t), (''data'', d)])"
proof -
  from assms(3) obtain r where r: "revision_record w c = Some r" and d: "json_dumps w r = Inr l"
    by (auto simp: line_of_def split: option.splits sum.splits)
  from r obtain h t d where "hexsha c = Inr h" "committed_datetime_isoformat c = Inr t"
    "extraction w c = Inr d"
    "r = JObj [(''commit'', JStr h), (''timestamp'', JStr t), (''data'', d)]"
    by (auto simp: revision_record_def split: sum.splits)
  moreover from assms(1,2) r d have "json_loads w l = Inr r"
    by (auto simp: round_trip_def list_all_iff)
  ultimately show ?thesis using d by auto
qed

lemma line_field_record:
  "json_loads w l = Inr (JObj [(''commit'', JStr h), (''timestamp'', JStr t), (''data'', d)]) \<Longrightarrow>
   line_field w ''commit'' l = Some (JStr h) \<and>
   line_field w ''timestamp'' l = Some (JStr t) \<and>
   line_field w ''data'' l = Some d"
  by (simp add: line_field_def)

lemma completes_line:
  "completes w c \<Longrightarrow> extraction w c = Inr d \<Longrightarrow> line_of w c \<noteq> None"
  by (simp add: completes_def parses_def)

lemma completes_no_line:
  "completes w c \<Longrightarrow> extraction w c = Inl e \<Longrightarrow> line_of w c = None"
  by (simp add: completes_def parses_def)

subsection \<open>Parsed commits\<close>

lemma one_line_of_extraction:
  assumes "main w fs = (None, st)"
    and "Repo w LOCAL_DIR = Inr r" and "iter_commits r JSON_FILENAME = Inr commits"
    and "distinct (map hexsha commits)"
    and "single_line w commits" and "round_trip w commits"
    and "c \<in> set commits" and "hexsha c = Inr h" and "extraction w c = Inr d"
  shows "length (filter (\<lambda>l. line_field w ''commit'' l = Some (JStr h)) (output_lines st)) = 1 \<and>
         (\<forall>l\<in>set (output_lines st).
            line_field w ''commit'' l = Some (JStr h) \<longrightarrow> line_field w ''data'' l = Some d)"
proof -
  note ol = main_output_lines [OF assms(1,2,3,5)]
  from main_None(4) [OF assms(1-3)] have comp: "\<forall>x\<in>set commits. completes w x"
    by (simp add: list_all_iff)
  with assms(7) have "completes w c" by blast
  with assms(9) have lc: "line_of w c \<noteq> None" by (simp add: completes_def parses_def)
  have key: "(line_of w x \<noteq> None \<and> line_field w ''commit'' (the (line_of w x)) = Some (JStr h))
             \<longleftrightarrow> hexsha x = hexsha c" if x: "x \<in> set commits" for x
  proof
    assume a: "line_of w x \<noteq> None \<and> line_field w ''commit'' (the (line_of w x)) = Some (JStr h)"
    then obtain l where l: "line_of w x = Some l" by auto
    from line_fields [OF assms(6) x l] a l show "hexsha x = hexsha c"
      using assms(8) by (auto dest: line_field_record)
  next
    assume "hexsha x = hexsha c"
    with same_key_same_commit [OF assms(4,7) x] have "x = c" by simp
    with lc obtain l where l: "line_of w x = Some l" by auto
    from line_fields [OF assms(6) x l] l \<open>x = c\<close> assms(8) show
      "line_of w x \<noteq> None \<and> line_field w ''commit'' (the (line_of w x)) = Some (JStr h)"
      by (auto dest: line_field_record)
  qed
  have "filter (\<lambda>l. line_field w ''commit'' l = Some (JStr h)) (output_lines st)
        = map (\<lambda>x. the (line_of w x))
            (filter (\<lambda>x. line_of w x \<noteq> None \<and>
                          line_field w ''commit'' (the (line_of w x)) = Some (JStr h)) commits)"
    unfolding ol by (rule filter_map_filter)
  also have "\<dots> = map (\<lambda>x. the (line_of w x)) (filter (\<lambda>x. hexsha x = hexsha c) commits)"
    using key by (simp cong: filter_cong)
  also have "\<dots> = [the (line_of w c)]"
    by (simp add: filter_same_key [OF assms(4,7)])
  finally have one: "filter (\<lambda>l. line_field w ''commit'' l = Some (JStr h)) (output_lines st)
                     = [the (line_of w c)]" .
  from lc obtain lcv where lcv: "line_of w c = Some lcv" by auto
  from line_fields [OF assms(6,7) lcv] assms(9) have dat: "line_field w ''data'' lcv = Some d"
    by (auto dest: line_field_record)
  have "line_field w ''data'' l = Some d"
    if "l \<in> set (output_lines st)" "line_field w ''commit'' l = Some (JStr h)" for l
  proof -
    from that have "l \<in> set (filter (\<lambda>l. line_field w ''commit'' l = Some (JStr h)) (output_lines st))"
      by simp
    with one lcv have "l = lcv" by simp
    with dat show ?thesis by simp
  qed
  with one show ?thesis by simp
qed

text \<open>
  C1. The run exits normally on the commits the walk yields, each with its own hash. For
  a commit of the walk whose tree has a blob at \<^verbatim>\<open>beer.json\<close>, whose blob reads as
  the bytes \<open>raw\<close>, whose bytes decode to the text \<open>txt\<close> and whose text parses to the
  value \<open>d\<close>, exactly one line of \<^verbatim>\<open>beer_versions.jsonl\<close> has the commit's hash in
  its \<open>commit\<close> field, and the \<open>data\<close> field of that line is \<open>d\<close>.
\<close>

theorem parsed_commit_one_line:
  assumes "main w fs = (None, st)"
    and "Repo w ''.'' = Inr r" and "iter_commits r ''beer.json'' = Inr commits"
    and "distinct (map hexsha commits)"
    and "single_line w commits" and "round_trip w commits"
    and "c \<in> set commits" and "hexsha c = Inr h"
    and "tree_div c ''beer.json'' = Inr b" and "data_stream_read b = Inr raw"
    and "decode_utf8 w raw = Inr txt" and "json_loads w txt = Inr d"
  shows "length (filter (\<lambda>l. line_field w ''commit'' l = Some (JStr h)) (output_lines st)) = 1 \<and>
         (\<forall>l\<in>set (output_lines st).
            line_field w ''commit'' l = Some (JStr h) \<longrightarrow> line_field w ''data'' l = Some d)"
proof -
  have ro: "Repo w LOCAL_DIR = Inr r" and it: "iter_commits r JSON_FILENAME = Inr commits"
    using assms(2,3) by (simp_all add: LOCAL_DIR_def JSON_FILENAME_def)
  have ex: "extraction w c = Inr d"
    using assms(9-12) by (simp add: extraction_def)
  from assms(1) ro it assms(4-8) ex show ?thesis by (rule one_line_of_extraction)
qed

subsection \<open>Skipped commits\<close>

lemma no_space_hash:
  "CHR '' '' \<notin> set h \<Longrightarrow> CHR '' '' \<notin> set h' \<Longrightarrow>
   prefix (h @ CHR '' '' # x) (h' @ CHR '' '' # y) \<Longrightarrow> h = h'"
proof (induction h arbitrary: h')
  case Nil
  then show ?case by (cases h') auto
next
  case (Cons a hs)
  then show ?case by (cases h') auto
qed

lemma names_commit_skip_msg:
  assumes "CHR '' '' \<notin> set h" and "CHR '' '' \<notin> set h'"
  shows "names_commit h (skip_msg h' m) \<longleftrightarrow> h = h'"
proof
  assume "names_commit h (skip_msg h' m)"
  then have "prefix (h @ CHR '' '' # ''due to error: '') (h' @ CHR '' '' # (''due to error: '' @ m))"
    by (simp add: names_commit_def skip_msg_def)
  with assms show "h = h'" by (rule no_space_hash)
next
  assume "h = h'"
  then show "names_commit h (skip_msg h' m)"
    by (simp add: names_commit_def skip_msg_def)
qed

lemma space_not_hex: "\<not> is_hex (CHR '' '')"
  by (simp add: is_hex_def)

lemma valid_hexsha_no_space:
  assumes "valid_hexsha h"
  shows "CHR '' '' \<notin> set h"
proof
  assume "CHR '' '' \<in> set h"
  moreover from assms have "\<forall>ch\<in>set h. is_hex ch"
    by (simp add: valid_hexsha_def list_all_iff)
  ultimately have "is_hex (CHR '' '')" by blast
  with space_not_hex show False by simp
qed

lemma hashes_valid_no_space:
  assumes "hashes_valid cs" and "c \<in> set cs" and "hexsha c = Inr h"
  shows "CHR '' '' \<notin> set h"
proof -
  from assms have "valid_hexsha h" by (fastforce simp: hashes_valid_def list_all_iff)
  then show ?thesis by (rule valid_hexsha_no_space)
qed

lemma not_names_found: "\<not> names_commit h (found_msg n)"
  by (simp add: names_commit_def found_msg_def)

lemma not_names_done: "\<not> names_commit h done_msg"
  by (simp add: names_commit_def done_msg_def)

lemma not_skip_found: "\<not> is_skip_diag (found_msg n)"
  by (simp add: is_skip_diag_def found_msg_def)

lemma not_skip_done: "\<not> is_skip_diag done_msg"
  by (simp add: is_skip_diag_def done_msg_def)

lemma is_skip_skip_msg: "is_skip_diag (skip_msg h m)"
  by (simp add: is_skip_diag_def skip_msg_def)

lemma diag_of_skip:
  "hexsha c = Inr h \<Longrightarrow> extraction w c = Inl (Exception m) \<Longrightarrow> diag_of w c = Some (skip_msg h m)"
  by (simp add: diag_of_def skip_msg_def)

lemma diag_of_SomeD:
  "diag_of w c = Some p \<Longrightarrow> \<exists>h m. hexsha c = Inr h \<and> extraction w c = Inl (Exception m) \<and> p = skip_msg h m"
  by (auto simp: diag_of_def skip_msg_def split: sum.splits exn.splits)

lemma process_skip:
  assumes "hexsha c = Inr h" and "committed_datetime_isoformat c = Inr t"
    and "extraction w c = Inl (Exception m)"
  shows "\<exists>st1. process w c st0 = (None, st1) \<and> stdout st1 = stdout st0 @ [skip_msg h m] \<and>
               files st1 = files st0 \<and> loop w (c # cs) st0 = loop w cs st1"
  using assms by (simp add: process_def try_body_eq print_def)

text \<open>The failures of the file at a commit are the failures of the extraction.\<close>

lemma file_failure_extraction:
  assumes "tree_div c ''beer.json'' = Inl (Exception m) \<or>
       (\<exists>b. tree_div c ''beer.json'' = Inr b \<and>
          (data_stream_read b = Inl (Exception m) \<or>
           (\<exists>raw. data_stream_read b = Inr raw \<and>
              (decode_utf8 w raw = Inl (Exception m) \<or>
               (\<exists>txt. decode_utf8 w raw = Inr txt \<and> json_loads w txt = Inl (Exception m))))))"
  shows "extraction w c = Inl (Exception m)"
  using assms by (auto simp: extraction_def)

lemma skip_of_extraction:
  assumes "main w fs = (None, st)"
    and "Repo w LOCAL_DIR = Inr r" and "iter_commits r JSON_FILENAME = Inr commits"
    and "distinct (map hexsha commits)" and "hashes_valid commits"
    and "single_line w commits" and "round_trip w commits"
    and "c \<in> set commits" and "hexsha c = Inr h" and "extraction w c = Inl (Exception m)"
  shows "(\<forall>l\<in>set (output_lines st). line_field w ''commit'' l \<noteq> Some (JStr h)) \<and>
         length (filter (names_commit h) (stdout st)) = 1 \<and>
         skip_msg h m \<in> set (stdout st) \<and>
         (\<forall>cs st0. \<exists>st1. process w c st0 = (None, st1) \<and>
                      stdout st1 = stdout st0 @ [skip_msg h m] \<and> files st1 = files st0 \<and>
                      loop w (c # cs) st0 = loop w cs st1)"
proof -
  note ol = main_output_lines [OF assms(1,2,3,6)]
  note so = main_None(1) [OF assms(1-3)]
  from main_None(4) [OF assms(1-3)] have comp: "\<forall>x\<in>set commits. completes w x"
    by (simp add: list_all_iff)
  with assms(8) have cc: "completes w c" by blast
  with assms(10) have nl: "line_of w c = None" by (simp add: completes_def parses_def)
  have dc: "diag_of w c = Some (skip_msg h m)" using assms(9,10) by (rule diag_of_skip)
  have hv: "CHR '' '' \<notin> set h"
    using assms(5,8,9) by (rule hashes_valid_no_space)
  have no_line: "line_field w ''commit'' l \<noteq> Some (JStr h)" if "l \<in> set (output_lines st)" for l
  proof
    assume a: "line_field w ''commit'' l = Some (JStr h)"
    from that ol obtain x where x: "x \<in> set commits" and l: "line_of w x = Some l"
      by (auto simp: map_filter_as_map)
    from line_fields [OF assms(7) x l] a have "hexsha x = Inr h"
      by (auto dest: line_field_record)
    with same_key_same_commit [OF assms(4,8) x] assms(9) have "x = c" by simp
    with l nl show False by simp
  qed
  have key: "(diag_of w x \<noteq> None \<and> names_commit h (the (diag_of w x))) \<longleftrightarrow> hexsha x = hexsha c"
    if x: "x \<in> set commits" for x
  proof
    assume a: "diag_of w x \<noteq> None \<and> names_commit h (the (diag_of w x))"
    then obtain p where p: "diag_of w x = Some p" by auto
    from diag_of_SomeD [OF p] obtain hx mx where hx: "hexsha x = Inr hx" and pp: "p = skip_msg hx mx"
      by auto
    from assms(5) x hx have "CHR '' '' \<notin> set hx" by (rule hashes_valid_no_space)
    with hv a p pp have "h = hx" by (simp add: names_commit_skip_msg)
    with hx assms(9) show "hexsha x = hexsha c" by simp
  next
    assume "hexsha x = hexsha c"
    with same_key_same_commit [OF assms(4,8) x] have "x = c" by simp
    with dc hv show "diag_of w x \<noteq> None \<and> names_commit h (the (diag_of w x))"
      by (simp add: names_commit_skip_msg)
  qed
  have "filter (names_commit h) (stdout st)
        = filter (names_commit h) (List.map_filter (diag_of w) commits)"
    unfolding so by (simp add: not_names_found not_names_done)
  also have "\<dots> = map (\<lambda>x. the (diag_of w x))
            (filter (\<lambda>x. diag_of w x \<noteq> None \<and> names_commit h (the (diag_of w x))) commits)"
    by (rule filter_map_filter)
  also have "\<dots> = map (\<lambda>x. the (diag_of w x)) (filter (\<lambda>x. hexsha x = hexsha c) commits)"
    using key by (simp cong: filter_cong)
  also have "\<dots> = [skip_msg h m]"
    by (simp add: filter_same_key [OF assms(4,8)] dc)
  finally have one: "filter (names_commit h) (stdout st) = [skip_msg h m]" .
  then have "skip_msg h m \<in> set (filter (names_commit h) (stdout st))" by simp
  then have mem: "skip_msg h m \<in> set (stdout st)" by simp
  from cc obtain t where t: "committed_datetime_isoformat c = Inr t"
    by (auto simp: completes_def)
  have step: "\<exists>st1. process w c st0 = (None, st1) \<and> stdout st1 = stdout st0 @ [skip_msg h m] \<and>
               files st1 = files st0 \<and> loop w (c # cs) st0 = loop w cs st1" for cs st0
    using assms(9) t assms(10) by (rule process_skip)
  from no_line one mem step show ?thesis by simp
qed

text \<open>
  C2. The run exits normally on the commits the walk yields, each with its own
  hexadecimal hash. For a commit of the walk at which the file fails with the
  \<^verbatim>\<open>Exception\<close> \<open>m\<close> (the tree has no blob at \<^verbatim>\<open>beer.json\<close>, or the blob does not
  read, or its bytes are not UTF-8, or the text is not JSON), no line of
  \<^verbatim>\<open>beer_versions.jsonl\<close> has the commit's hash in its \<open>commit\<close> field, exactly one
  printed diagnostic names the commit, the text
  \<^verbatim>\<open>Skipping commit <hash> due to error: <m>\<close> is printed, and the loop goes on with the
  next commit from a state that differs in that diagnostic only.
\<close>

theorem failed_commit_skipped:
  assumes "main w fs = (None, st)"
    and "Repo w ''.'' = Inr r" and "iter_commits r ''beer.json'' = Inr commits"
    and "distinct (map hexsha commits)" and "hashes_valid commits"
    and "single_line w commits" and "round_trip w commits"
    and "c \<in> set commits" and "hexsha c = Inr h"
    and "tree_div c ''beer.json'' = Inl (Exception m) \<or>
       (\<exists>b. tree_div c ''beer.json'' = Inr b \<and>
          (data_stream_read b = Inl (Exception m) \<or>
           (\<exists>raw. data_stream_read b = Inr raw \<and>
              (decode_utf8 w raw = Inl (Exception m) \<or>
               (\<exists>txt. decode_utf8 w raw = Inr txt \<and> json_loads w txt = Inl (Exception m))))))"
  shows "(\<forall>l\<in>set (output_lines st). line_field w ''commit'' l \<noteq> Some (JStr h)) \<and>
         length (filter (names_commit h) (stdout st)) = 1 \<and>
         ''Skipping commit '' @ h @ '' due to error: '' @ m \<in> set (stdout st) \<and>
         (\<forall>cs st0. \<exists>st1. process w c st0 = (None, st1) \<and>
                      stdout st1 = stdout st0 @ [''Skipping commit '' @ h @ '' due to error: '' @ m] \<and>
                      files st1 = files st0 \<and>
                      loop w (c # cs) st0 = loop w cs st1)"
proof -
  have ro: "Repo w LOCAL_DIR = Inr r" and it: "iter_commits r JSON_FILENAME = Inr commits"
    using assms(2,3) by (simp_all add: LOCAL_DIR_def JSON_FILENAME_def)
  have ex: "extraction w c = Inl (Exception m)"
    using assms(10) by (rule file_failure_extraction)
  from skip_of_extraction [OF assms(1) ro it assms(4-9) ex] show ?thesis
    by (simp add: skip_msg_def)
qed

subsection \<open>Both, on the scenario\<close>

lemma demo_member:
  "demo_tip \<in> set demo_commits" "demo_second \<in> set demo_commits"
  "demo_removed \<in> set demo_commits" "demo_first \<in> set demo_commits"
  by (simp_all add: demo_commits_def)

lemma demo_hexsha:
  "hexsha demo_tip = Inr demo_hash_tip" "hexsha demo_second = Inr demo_hash_second"
  "hexsha demo_removed = Inr demo_hash_removed" "hexsha demo_first = Inr demo_hash_first"
  by (simp_all add: demo_tip_def demo_second_def demo_removed_def demo_first_def demo_commit_def)

lemma demo_walk:
  "Repo demo_world ''.'' = Inr demo_repo" "iter_commits demo_repo ''beer.json'' = Inr demo_commits"
  by (simp_all add: demo_world_def demo_repo_def)

lemma demo_second_file:
  \<open>tree_div demo_second ''beer.json'' =
     Inr \<lparr>data_stream_read = Inr [0x7B, 0x22, 0x61, 0x22, 0x3A, 0x32, 0x7D]\<rparr>\<close>
  \<open>decode_utf8 demo_world [0x7B, 0x22, 0x61, 0x22, 0x3A, 0x32, 0x7D] = Inr ''{"a":2}''\<close>
  \<open>json_loads demo_world ''{"a":2}'' = Inr (JObj [(''a'', JInt 2)])\<close>
  by (simp_all add: demo_second_def demo_commit_def demo_world_def demo_decode_def demo_loads_def)

lemma demo_tip_file:
  \<open>tree_div demo_tip ''beer.json'' = Inr \<lparr>data_stream_read = Inr [0x7B, 0x22, 0x61, 0x22, 0x3A]\<rparr>\<close>
  \<open>decode_utf8 demo_world [0x7B, 0x22, 0x61, 0x22, 0x3A] = Inr ''{"a":''\<close>
  \<open>json_loads demo_world ''{"a":'' = Inl (Exception ''Expecting value: line 1 column 6 (char 5)'')\<close>
  by (simp_all add: demo_tip_def demo_commit_def demo_world_def demo_decode_def demo_loads_def
      demo_line_second_def demo_line_first_def)

lemma demo_removed_file: "tree_div demo_removed ''beer.json'' = Inl (Exception ''not found'')"
  by (simp add: demo_removed_def demo_commit_def)

theorem parsed_commit_one_line_witness:
  \<open>main demo_world Map.empty = (None, demo_final) \<and>
   distinct (map hexsha demo_commits) \<and>
   single_line demo_world demo_commits \<and> round_trip demo_world demo_commits \<and>
   demo_second \<in> set demo_commits \<and>
   tree_div demo_second ''beer.json'' =
     Inr \<lparr>data_stream_read = Inr [0x7B, 0x22, 0x61, 0x22, 0x3A, 0x32, 0x7D]\<rparr> \<and>
   decode_utf8 demo_world [0x7B, 0x22, 0x61, 0x22, 0x3A, 0x32, 0x7D] = Inr ''{"a":2}'' \<and>
   json_loads demo_world ''{"a":2}'' = Inr (JObj [(''a'', JInt 2)]) \<and>
   length (filter (\<lambda>l. line_field demo_world ''commit'' l = Some (JStr demo_hash_second))
             (output_lines demo_final)) = 1 \<and>
   list_all (\<lambda>l. line_field demo_world ''commit'' l = Some (JStr demo_hash_second) \<longrightarrow>
                  line_field demo_world ''data'' l = Some (JObj [(''a'', JInt 2)]))
     (output_lines demo_final)\<close>
proof -
  have rd: "data_stream_read \<lparr>data_stream_read = Inr [0x7B, 0x22, 0x61, 0x22, 0x3A, 0x32, 0x7D]\<rparr>
              = Inr [0x7B, 0x22, 0x61, 0x22, 0x3A, 0x32, 0x7D :: 8 word]"
    by simp
  from parsed_commit_one_line [OF demo_run demo_walk demo_distinct demo_single_line
      demo_round_trip demo_member(2) demo_hexsha(2) demo_second_file(1) rd demo_second_file(2,3)]
    demo_run demo_distinct demo_single_line demo_round_trip demo_member(2) demo_second_file
  show ?thesis by (simp add: list_all_iff)
qed

theorem failed_commit_skipped_witness:
  \<open>main demo_world Map.empty = (None, demo_final) \<and>
   distinct (map hexsha demo_commits) \<and> hashes_valid demo_commits \<and>
   single_line demo_world demo_commits \<and> round_trip demo_world demo_commits \<and>
   demo_tip \<in> set demo_commits \<and> demo_removed \<in> set demo_commits \<and>
   json_loads demo_world ''{"a":'' = Inl (Exception ''Expecting value: line 1 column 6 (char 5)'') \<and>
   tree_div demo_removed ''beer.json'' = Inl (Exception ''not found'') \<and>
   list_all (\<lambda>l. line_field demo_world ''commit'' l \<noteq> Some (JStr demo_hash_tip))
     (output_lines demo_final) \<and>
   list_all (\<lambda>l. line_field demo_world ''commit'' l \<noteq> Some (JStr demo_hash_removed))
     (output_lines demo_final) \<and>
   length (filter (names_commit demo_hash_tip) (stdout demo_final)) = 1 \<and>
   length (filter (names_commit demo_hash_removed) (stdout demo_final)) = 1 \<and>
   ''Skipping commit 9f2c4e1a7b3d5f60819a2b3c4d5e6f7081920a1b due to error: Expecting value: line 1 column 6 (char 5)''
     \<in> set (stdout demo_final) \<and>
   ''Skipping commit 70c1d2e3f4a5b6c7d8e9f0a1b2c3d4e5f6a7b8c9 due to error: not found''
     \<in> set (stdout demo_final)\<close>
proof -
  have tip: \<open>tree_div demo_tip ''beer.json'' =
         Inl (Exception ''Expecting value: line 1 column 6 (char 5)'') \<or>
       (\<exists>b. tree_div demo_tip ''beer.json'' = Inr b \<and>
          (data_stream_read b = Inl (Exception ''Expecting value: line 1 column 6 (char 5)'') \<or>
           (\<exists>raw. data_stream_read b = Inr raw \<and>
              (decode_utf8 demo_world raw =
                 Inl (Exception ''Expecting value: line 1 column 6 (char 5)'') \<or>
               (\<exists>txt. decode_utf8 demo_world raw = Inr txt \<and>
                      json_loads demo_world txt =
                        Inl (Exception ''Expecting value: line 1 column 6 (char 5)''))))))\<close>
    by (simp add: demo_tip_file)
  have removed: \<open>tree_div demo_removed ''beer.json'' = Inl (Exception ''not found'') \<or>
       (\<exists>b. tree_div demo_removed ''beer.json'' = Inr b \<and>
          (data_stream_read b = Inl (Exception ''not found'') \<or>
           (\<exists>raw. data_stream_read b = Inr raw \<and>
              (decode_utf8 demo_world raw = Inl (Exception ''not found'') \<or>
               (\<exists>txt. decode_utf8 demo_world raw = Inr txt \<and>
                      json_loads demo_world txt = Inl (Exception ''not found''))))))\<close>
    by (simp add: demo_removed_file)
  from failed_commit_skipped [OF demo_run demo_walk demo_distinct demo_hashes_valid
      demo_single_line demo_round_trip demo_member(1) demo_hexsha(1) tip]
    failed_commit_skipped [OF demo_run demo_walk demo_distinct demo_hashes_valid
      demo_single_line demo_round_trip demo_member(3) demo_hexsha(3) removed]
    demo_run demo_distinct demo_hashes_valid demo_single_line demo_round_trip demo_member(1,3)
    demo_tip_file(3) demo_removed_file
  show ?thesis
    by (simp add: list_all_iff demo_hash_tip_def demo_hash_removed_def)
qed

section \<open>Failures outside the loop\<close>

text \<open>
  C7. When opening the repository raises, the exception leaves the script: nothing is
  printed, no commit is touched, and the file system is as it was, so the output file is
  neither created nor truncated.
\<close>

theorem repo_open_failure_fatal:
  "Repo w LOCAL_DIR = Inl e \<Longrightarrow>
   main w fs = (Some e, \<lparr>stdout = [], files = fs, reads = []\<rparr>)"
  by (simp add: main_def)

theorem repo_open_failure_fatal_witness:
  "Repo (demo_world\<lparr>Repo := \<lambda>p. Inl (Exception ''not a git repository'')\<rparr>) LOCAL_DIR
     = Inl (Exception ''not a git repository'') \<and>
   main (demo_world\<lparr>Repo := \<lambda>p. Inl (Exception ''not a git repository'')\<rparr>)
     [OUTPUT_FILE \<mapsto> ''kept''] =
     (Some (Exception ''not a git repository''),
      \<lparr>stdout = [], files = [OUTPUT_FILE \<mapsto> ''kept''], reads = []\<rparr>)"
  using repo_open_failure_fatal
    [of "demo_world\<lparr>Repo := \<lambda>p. Inl (Exception ''not a git repository'')\<rparr>"
      "Exception ''not a git repository''" "[OUTPUT_FILE \<mapsto> ''kept'']"]
  by simp

section \<open>Counting, format and order\<close>

lemma length_map_filter:
  "length (List.map_filter f xs) = length (filter (\<lambda>x. f x \<noteq> None) xs)"
  by (simp add: map_filter_as_map)

lemma map_filter_mem:
  "p \<in> set (List.map_filter f xs) \<longleftrightarrow> (\<exists>x\<in>set xs. f x = Some p)"
  by (induction xs) (auto simp: map_filter_simps split: option.splits)

lemma completes_all:
  assumes "main w fs = (None, st)"
    and "Repo w LOCAL_DIR = Inr r" and "iter_commits r JSON_FILENAME = Inr commits"
  shows "\<forall>x\<in>set commits. completes w x"
  using main_None(4) [OF assms] by (simp add: list_all_iff)

lemma skip_diags_of_run:
  "filter is_skip_diag (found_msg n # List.map_filter (diag_of w) cs @ [done_msg])
     = List.map_filter (diag_of w) cs"
proof -
  have "is_skip_diag p" if "p \<in> set (List.map_filter (diag_of w) cs)" for p
  proof -
    from that obtain x where "diag_of w x = Some p" by (auto simp: map_filter_mem)
    from diag_of_SomeD [OF this] show ?thesis by (auto intro: is_skip_skip_msg)
  qed
  then have "filter is_skip_diag (List.map_filter (diag_of w) cs) = List.map_filter (diag_of w) cs"
    by (simp add: filter_id_conv)
  then show ?thesis by (simp add: not_skip_found not_skip_done)
qed

lemma counts_of_run:
  assumes "main w fs = (None, st)"
    and "Repo w LOCAL_DIR = Inr r" and "iter_commits r JSON_FILENAME = Inr commits"
    and "single_line w commits"
  shows "length (output_lines st) + length (filter is_skip_diag (stdout st)) = length commits \<and>
         take 1 (stdout st) = [found_msg (length commits)] \<and>
         length (output_lines st) = length (filter (parses w) commits) \<and>
         length (filter is_skip_diag (stdout st)) = length (filter (\<lambda>c. \<not> parses w c) commits)"
proof -
  note ol = main_output_lines [OF assms]
  note so = main_None(1) [OF assms(1-3)]
  note comp = completes_all [OF assms(1-3)]
  have "filter (\<lambda>x. line_of w x \<noteq> None) commits = filter (parses w) commits"
    using comp by (auto simp: completes_def cong: filter_cong)
  then have a: "length (output_lines st) = length (filter (parses w) commits)"
    by (simp add: ol length_map_filter)
  have "filter (\<lambda>x. diag_of w x \<noteq> None) commits = filter (\<lambda>c. \<not> parses w c) commits"
    using comp by (auto simp: completes_def cong: filter_cong)
  then have b: "length (filter is_skip_diag (stdout st)) = length (filter (\<lambda>c. \<not> parses w c) commits)"
    unfolding so skip_diags_of_run by (simp add: length_map_filter)
  have c: "take 1 (stdout st) = [found_msg (length commits)]"
    by (simp add: so)
  from a b c sum_length_filter_compl [of "parses w" commits] show ?thesis by simp
qed

subsection \<open>The printed count\<close>

lemma digit_val_digit_char: "d < 10 \<Longrightarrow> digit_val (digit_char d) = Some d"
proof -
  assume "d < 10"
  then have "d = 0 \<or> d = 1 \<or> d = 2 \<or> d = 3 \<or> d = 4 \<or> d = 5 \<or> d = 6 \<or> d = 7 \<or>
             d = 8 \<or> d = 9"
    by presburger
  then show ?thesis by (elim disjE) (simp_all add: digit_val_def digit_char_def)
qed

lemma read_nat_acc_snoc:
  "read_nat_acc n (xs @ [ch]) =
     (case read_nat_acc n xs of
        None \<Rightarrow> None
      | Some m \<Rightarrow> (case digit_val ch of None \<Rightarrow> None | Some d \<Rightarrow> Some (10 * m + d)))"
  by (induction xs arbitrary: n) (simp_all split: option.splits)

lemma read_nat_acc_str_nat: "read_nat_acc 0 (str_nat n) = Some n"
proof (induction n rule: str_nat.induct)
  case (1 n)
  show ?case
  proof (cases "n < 10")
    case True
    then show ?thesis by (simp add: str_nat.simps [of n] digit_val_digit_char)
  next
    case False
    with "1" have "read_nat_acc 0 (str_nat (n div 10)) = Some (n div 10)" by simp
    with False show ?thesis
      by (simp add: str_nat.simps [of n] read_nat_acc_snoc digit_val_digit_char)
  qed
qed

lemma str_nat_not_empty: "str_nat n \<noteq> []"
  by (simp add: str_nat.simps [of n])

lemma read_nat_str_nat: "read_nat (str_nat n) = Some n"
  by (simp add: read_nat_def str_nat_not_empty read_nat_acc_str_nat)

text \<open>
  C3. On a run that exits normally, the first printed line is
  \<^verbatim>\<open>Found <digits> commits affecting beer.json\<close>, and the number its digits stand for
  is the number of lines of \<^verbatim>\<open>beer_versions.jsonl\<close> plus the number of printed
  \<^verbatim>\<open>Skipping commit\<close> diagnostics. Both add up to the length of the walk: the lines
  are as many as the commits whose content parses, the diagnostics as many as the others.
\<close>

theorem lines_plus_skips:
  assumes "main w fs = (None, st)"
    and "Repo w ''.'' = Inr r" and "iter_commits r ''beer.json'' = Inr commits"
    and "single_line w commits"
  shows "(\<exists>digits. take 1 (stdout st) = [''Found '' @ digits @ '' commits affecting beer.json''] \<and>
            read_nat digits =
              Some (length (output_lines st) + length (filter is_skip_diag (stdout st)))) \<and>
         length (output_lines st) + length (filter is_skip_diag (stdout st)) = length commits \<and>
         length (output_lines st) = length (filter (parses w) commits) \<and>
         length (filter is_skip_diag (stdout st)) = length (filter (\<lambda>c. \<not> parses w c) commits)"
proof -
  have ro: "Repo w LOCAL_DIR = Inr r" and it: "iter_commits r JSON_FILENAME = Inr commits"
    using assms(2,3) by (simp_all add: LOCAL_DIR_def JSON_FILENAME_def)
  note c = counts_of_run [OF assms(1) ro it assms(4)]
  from c have "take 1 (stdout st) =
      [''Found '' @ str_nat (length commits) @ '' commits affecting beer.json'']"
    by (simp add: found_msg_def JSON_FILENAME_def)
  moreover from c have "read_nat (str_nat (length commits)) =
      Some (length (output_lines st) + length (filter is_skip_diag (stdout st)))"
    by (simp add: read_nat_str_nat)
  ultimately have "\<exists>digits.
      take 1 (stdout st) = [''Found '' @ digits @ '' commits affecting beer.json''] \<and>
      read_nat digits = Some (length (output_lines st) + length (filter is_skip_diag (stdout st)))"
    by blast
  with c show ?thesis by simp
qed

theorem lines_plus_skips_witness:
  "main demo_world Map.empty = (None, demo_final) \<and> single_line demo_world demo_commits \<and>
   (\<exists>digits. take 1 (stdout demo_final) = [''Found '' @ digits @ '' commits affecting beer.json''] \<and>
      read_nat digits =
        Some (length (output_lines demo_final) + length (filter is_skip_diag (stdout demo_final)))) \<and>
   take 1 (stdout demo_final) = [''Found 4 commits affecting beer.json''] \<and>
   read_nat ''4'' = Some 4 \<and>
   length (output_lines demo_final) = 2 \<and>
   length (filter is_skip_diag (stdout demo_final)) = 2 \<and>
   length demo_commits = 4"
proof -
  have "take 1 (stdout demo_final) = [''Found 4 commits affecting beer.json'']"
    by (simp add: demo_final_def)
  moreover have "length (filter is_skip_diag (stdout demo_final)) = 2"
    by (simp add: demo_final_def is_skip_diag_def)
  moreover have "length demo_commits = 4"
    by (simp add: demo_commits_def)
  moreover have "read_nat ''4'' = Some 4"
    by (simp add: read_nat_def digit_val_def)
  ultimately show ?thesis
    using lines_plus_skips [OF demo_run demo_walk demo_single_line] demo_run demo_single_line
    by (simp add: demo_output_lines)
qed



lemma lines_are_dumps:
  "list_all (completes w) cs \<Longrightarrow>
   map Inr (List.map_filter (line_of w) cs) = map (json_dumps w) (List.map_filter (revision_record w) cs)"
proof (induction cs)
  case Nil
  then show ?case by (simp add: map_filter_simps)
next
  case (Cons c cs)
  show ?case
  proof (cases "revision_record w c")
    case None
    then have "line_of w c = None" by (simp add: line_of_def)
    with None Cons show ?thesis by (simp add: map_filter_simps)
  next
    case (Some rec)
    then have "parses w c"
      by (auto simp: revision_record_def parses_def split: sum.splits)
    with Cons.prems obtain l where l: "line_of w c = Some l" by (auto simp: completes_def)
    with Some have "json_dumps w rec = Inr l"
      by (auto simp: line_of_def split: sum.splits)
    with Some l Cons show ?thesis by (simp add: map_filter_simps)
  qed
qed

text \<open>
  C5. On a run that exits normally, the lines of \<^verbatim>\<open>beer_versions.jsonl\<close> are, in
  the order of the walk, the \<^verbatim>\<open>json.dumps\<close> serializations of the Revision Records
  (the objects of commit hash, commit timestamp and parsed value) of the commits whose
  content parses: line \<open>i\<close> is the serialization of the record of the \<open>i\<close>-th such commit.
\<close>

theorem lines_in_walk_order:
  assumes "main w fs = (None, st)"
    and "Repo w ''.'' = Inr r" and "iter_commits r ''beer.json'' = Inr commits"
    and "single_line w commits"
  shows "map Inr (output_lines st) = map (json_dumps w) (List.map_filter (revision_record w) commits)"
proof -
  have ro: "Repo w LOCAL_DIR = Inr r" and it: "iter_commits r JSON_FILENAME = Inr commits"
    using assms(2,3) by (simp_all add: LOCAL_DIR_def JSON_FILENAME_def)
  from main_output_lines [OF assms(1) ro it assms(4)]
    lines_are_dumps [OF main_None(4) [OF assms(1) ro it]]
  show ?thesis by simp
qed

theorem lines_in_walk_order_witness:
  "main demo_world Map.empty = (None, demo_final) \<and> single_line demo_world demo_commits \<and>
   map Inr (output_lines demo_final) =
     map (json_dumps demo_world) (List.map_filter (revision_record demo_world) demo_commits) \<and>
   List.map_filter (revision_record demo_world) demo_commits = [demo_record_second, demo_record_first] \<and>
   output_lines demo_final = [demo_line_second, demo_line_first]"
proof -
  have "List.map_filter (revision_record demo_world) demo_commits = [demo_record_second, demo_record_first]"
    by (simp add: map_filter_simps revision_record_def extraction_def demo_defs)
  with lines_in_walk_order [OF demo_run demo_walk demo_single_line]
    demo_run demo_single_line demo_output_lines
  show ?thesis by simp
qed

text \<open>
  C10. On a run that exits normally on a walk that yields each hash once, every line of
  the output file has a \<open>commit\<close> field and no two lines have the same one.
\<close>

theorem commit_fields_distinct:
  assumes "main w fs = (None, st)"
    and "Repo w LOCAL_DIR = Inr r" and "iter_commits r JSON_FILENAME = Inr commits"
    and "distinct (map hexsha commits)"
    and "single_line w commits" and "round_trip w commits"
  shows "distinct (map (line_field w ''commit'') (output_lines st)) \<and>
         None \<notin> set (map (line_field w ''commit'') (output_lines st))"
proof -
  note ol = main_output_lines [OF assms(1,2,3,5)]
  define k where "k = (\<lambda>x :: exn + string. case x of Inr h \<Rightarrow> Some (JStr h) | Inl _ \<Rightarrow> None)"
  have fld: "line_field w ''commit'' (the (line_of w x)) = k (hexsha x)"
    if "x \<in> set commits" "line_of w x \<noteq> None" for x
  proof -
    from that obtain l where l: "line_of w x = Some l" by auto
    from line_fields [OF assms(6) that(1) l] l show ?thesis
      by (auto simp: k_def dest: line_field_record)
  qed
  have hs: "\<exists>h. hexsha x = Inr h" if "x \<in> set commits" for x
    using completes_all [OF assms(1-3)] that by (auto simp: completes_def)
  define S where "S = map hexsha (filter (\<lambda>x. line_of w x \<noteq> None) commits)"
  have eq: "map (line_field w ''commit'') (output_lines st) = map k S"
    unfolding ol map_filter_as_map S_def using fld by (simp cong: map_cong)
  have d: "distinct S"
    unfolding S_def using assms(4) by (rule distinct_map_filter)
  have inr: "\<exists>h. v = Inr h" if "v \<in> set S" for v
    using that hs unfolding S_def by fastforce
  have "inj_on k (set S)"
  proof (rule inj_onI)
    fix a b
    assume a: "a \<in> set S" and b: "b \<in> set S" and kk: "k a = k b"
    from inr [OF a] inr [OF b] obtain ha hb where "a = Inr ha" "b = Inr hb" by blast
    with kk show "a = b" by (simp add: k_def)
  qed
  with d have "distinct (map k S)"
    by (simp only: distinct_map simp_thms)
  moreover have "None \<notin> set (map k S)"
  proof
    assume "None \<in> set (map k S)"
    then obtain v where v: "v \<in> set S" and kv: "k v = None" by (auto simp: image_iff)
    from inr [OF v] kv show False by (auto simp: k_def)
  qed
  ultimately show ?thesis unfolding eq by simp
qed

theorem commit_fields_distinct_witness:
  "main demo_world Map.empty = (None, demo_final) \<and> distinct (map hexsha demo_commits) \<and>
   single_line demo_world demo_commits \<and> round_trip demo_world demo_commits \<and>
   distinct (map (line_field demo_world ''commit'') (output_lines demo_final)) \<and>
   map (line_field demo_world ''commit'') (output_lines demo_final) =
     [Some (JStr demo_hash_second), Some (JStr demo_hash_first)]"
proof -
  have "map (line_field demo_world ''commit'') (output_lines demo_final) =
     [Some (JStr demo_hash_second), Some (JStr demo_hash_first)]"
    by (simp add: demo_output_lines line_field_def demo_world_def demo_loads_def
        demo_line_second_def demo_line_first_def demo_record_second_def demo_record_first_def)
  with commit_fields_distinct [OF demo_run demo_repo_open demo_iter_commits demo_distinct
      demo_single_line demo_round_trip]
    demo_run demo_distinct demo_single_line demo_round_trip
  show ?thesis by simp
qed

section \<open>The empty walk\<close>

text \<open>
  C9. When the repository opens, the walk yields no commit and the output file opens,
  the run exits normally: it has printed the count of zero and the completion message,
  and the output file exists and is empty, whatever it held before.
\<close>

theorem empty_walk:
  assumes "Repo w LOCAL_DIR = Inr r" and "iter_commits r JSON_FILENAME = Inr []"
    and "open_error w OUTPUT_FILE = None"
  shows "main w fs =
     (None,
      \<lparr>stdout = [''Found 0 commits affecting beer.json'',
                  ''All versions extracted into beer_versions.jsonl''],
       files = fs(OUTPUT_FILE \<mapsto> []),
       reads = []\<rparr>)"
  using assms
  by (simp add: main_def fopen_w_def fclose_def contents_def print_def found_msg_def done_msg_def
      str_nat.simps digit_char_def JSON_FILENAME_def OUTPUT_FILE_def)

theorem empty_walk_witness:
  "Repo demo_empty_world LOCAL_DIR = Inr \<lparr>iter_commits = (\<lambda>q. Inr [])\<rparr> \<and>
   open_error demo_empty_world OUTPUT_FILE = None \<and>
   main demo_empty_world [OUTPUT_FILE \<mapsto> ''stale''] =
     (None,
      \<lparr>stdout = [''Found 0 commits affecting beer.json'',
                  ''All versions extracted into beer_versions.jsonl''],
       files = [OUTPUT_FILE \<mapsto> []],
       reads = []\<rparr>)"
  using empty_walk [of demo_empty_world "\<lparr>iter_commits = (\<lambda>q. Inr [])\<rparr>" "[OUTPUT_FILE \<mapsto> ''stale'']"]
  by (simp add: demo_empty_world_def demo_world_def)

section \<open>Running again\<close>

lemma process_frame: "p \<noteq> OUTPUT_FILE \<Longrightarrow> files (snd (process w c st)) p = files st p"
  by (auto simp: process_def try_body_eq print_def fwrite_def
      split: sum.splits exn.splits option.splits)

lemma loop_frame: "p \<noteq> OUTPUT_FILE \<Longrightarrow> files (snd (loop w cs st)) p = files st p"
proof (induction cs arbitrary: st)
  case Nil
  then show ?case by simp
next
  case (Cons c cs)
  from Cons.IH [OF Cons.prems] process_frame [OF Cons.prems, of w c st]
  show ?case by (auto split: prod.splits option.splits)
qed

lemma main_frame: "p \<noteq> OUTPUT_FILE \<Longrightarrow> files (snd (main w fs)) p = fs p"
proof (cases "\<exists>r commits. Repo w LOCAL_DIR = Inr r \<and> iter_commits r JSON_FILENAME = Inr commits \<and>
                open_error w OUTPUT_FILE = None")
  case True
  assume p: "p \<noteq> OUTPUT_FILE"
  from True obtain r commits where ok: "Repo w LOCAL_DIR = Inr r"
    "iter_commits r JSON_FILENAME = Inr commits" "open_error w OUTPUT_FILE = None" by blast
  define s0 where "s0 = \<lparr>stdout = [found_msg (length commits)],
                            files = fs(OUTPUT_FILE \<mapsto> []), reads = []\<rparr>"
  obtain e s3 where l: "loop w commits s0 = (e, s3)" by (cases "loop w commits s0")
  from loop_frame [OF p, of w commits s0] l p have "files s3 p = fs p"
    by (simp add: s0_def)
  with l show ?thesis
    unfolding main_after_open [OF ok] s0_def [symmetric]
    by (cases e; cases "fclose w OUTPUT_FILE s3") (simp_all add: print_def)
next
  case False
  then show ?thesis
    by (auto simp: main_def Let_def fopen_w_def print_def split: sum.splits option.splits)
qed

lemma main_no_open:
  assumes "Repo w LOCAL_DIR = Inl e \<or>
           (\<exists>r. Repo w LOCAL_DIR = Inr r \<and>
              ((\<exists>e. iter_commits r JSON_FILENAME = Inl e) \<or> open_error w OUTPUT_FILE \<noteq> None))"
  shows "files (snd (main w fs)) = fs"
  using assms
  by (auto simp: main_def Let_def fopen_w_def print_def split: sum.splits option.splits)

lemma rerun_same: "main w (files (snd (main w fs))) = main w fs"
proof (cases "\<exists>r commits. Repo w LOCAL_DIR = Inr r \<and> iter_commits r JSON_FILENAME = Inr commits \<and>
                open_error w OUTPUT_FILE = None")
  case True
  then obtain r commits where ok: "Repo w LOCAL_DIR = Inr r"
    "iter_commits r JSON_FILENAME = Inr commits" "open_error w OUTPUT_FILE = None" by blast
  have "(files (snd (main w fs)))(OUTPUT_FILE \<mapsto> []) = fs(OUTPUT_FILE \<mapsto> [])"
    using main_frame [of _ w fs] by (auto simp: fun_eq_iff)
  then show ?thesis by (simp add: main_after_open [OF ok])
next
  case False
  then have "Repo w LOCAL_DIR = Inl (projl (Repo w LOCAL_DIR)) \<or>
           (\<exists>r. Repo w LOCAL_DIR = Inr r \<and>
              ((\<exists>e. iter_commits r JSON_FILENAME = Inl e) \<or> open_error w OUTPUT_FILE \<noteq> None))"
    by (cases "Repo w LOCAL_DIR"; cases "iter_commits (projr (Repo w LOCAL_DIR)) JSON_FILENAME") auto
  then have "files (snd (main w fs)) = fs" by (rule main_no_open)
  then show ?thesis by simp
qed

lemma process_agree:
  assumes "stdout s1 = stdout s2" and "reads s1 = reads s2"
    and "files s1 OUTPUT_FILE = files s2 OUTPUT_FILE"
  shows "fst (process w c s1) = fst (process w c s2) \<and>
         stdout (snd (process w c s1)) = stdout (snd (process w c s2)) \<and>
         reads (snd (process w c s1)) = reads (snd (process w c s2)) \<and>
         files (snd (process w c s1)) OUTPUT_FILE = files (snd (process w c s2)) OUTPUT_FILE"
  using assms
  by (auto simp: process_def try_body_eq print_def fwrite_def contents_def
      split: sum.splits exn.splits option.splits)

lemma loop_agree:
  assumes "stdout s1 = stdout s2" and "reads s1 = reads s2"
    and "files s1 OUTPUT_FILE = files s2 OUTPUT_FILE"
  shows "fst (loop w cs s1) = fst (loop w cs s2) \<and>
         stdout (snd (loop w cs s1)) = stdout (snd (loop w cs s2)) \<and>
         reads (snd (loop w cs s1)) = reads (snd (loop w cs s2)) \<and>
         files (snd (loop w cs s1)) OUTPUT_FILE = files (snd (loop w cs s2)) OUTPUT_FILE"
  using assms
proof (induction cs arbitrary: s1 s2)
  case Nil
  then show ?case by simp
next
  case (Cons c cs)
  note pa = process_agree [OF Cons.prems, of w c]
  obtain e1 t1 where p1: "process w c s1 = (e1, t1)" by (cases "process w c s1")
  obtain e2 t2 where p2: "process w c s2 = (e2, t2)" by (cases "process w c s2")
  from pa p1 p2 have e: "e1 = e2" and a: "stdout t1 = stdout t2" "reads t1 = reads t2"
    "files t1 OUTPUT_FILE = files t2 OUTPUT_FILE" by simp_all
  show ?case
  proof (cases e1)
    case None
    with e p1 p2 Cons.IH [OF a] show ?thesis by simp
  next
    case (Some x)
    with e have "e2 = Some x" by simp
    with Some p1 p2 a show ?thesis by simp
  qed
qed

lemma main_agree:
  "fst (main w fs') = fst (main w fs) \<and>
   stdout (snd (main w fs')) = stdout (snd (main w fs)) \<and>
   reads (snd (main w fs')) = reads (snd (main w fs)) \<and>
   (fst (main w fs) = None \<longrightarrow>
      files (snd (main w fs')) OUTPUT_FILE = files (snd (main w fs)) OUTPUT_FILE)"
proof (cases "\<exists>r commits. Repo w LOCAL_DIR = Inr r \<and> iter_commits r JSON_FILENAME = Inr commits \<and>
                open_error w OUTPUT_FILE = None")
  case True
  then obtain r commits where ok: "Repo w LOCAL_DIR = Inr r"
    "iter_commits r JSON_FILENAME = Inr commits" "open_error w OUTPUT_FILE = None" by blast
  define s1 where "s1 = \<lparr>stdout = [found_msg (length commits)],
                            files = fs'(OUTPUT_FILE \<mapsto> []), reads = []\<rparr>"
  define s2 where "s2 = \<lparr>stdout = [found_msg (length commits)],
                            files = fs(OUTPUT_FILE \<mapsto> []), reads = []\<rparr>"
  have "stdout s1 = stdout s2" "reads s1 = reads s2" "files s1 OUTPUT_FILE = files s2 OUTPUT_FILE"
    by (simp_all add: s1_def s2_def)
  note la = loop_agree [OF this, of w commits]
  obtain e1 t1 where l1: "loop w commits s1 = (e1, t1)" by (cases "loop w commits s1")
  obtain e2 t2 where l2: "loop w commits s2 = (e2, t2)" by (cases "loop w commits s2")
  from la l1 l2 have e: "e1 = e2" and a: "stdout t1 = stdout t2" "reads t1 = reads t2"
    "files t1 OUTPUT_FILE = files t2 OUTPUT_FILE" by simp_all
  from a(3) have c: "fclose w OUTPUT_FILE t1 = fclose w OUTPUT_FILE t2"
    by (simp add: fclose_def contents_def)
  from e a c l1 l2 show ?thesis
    unfolding main_after_open [OF ok] s1_def [symmetric] s2_def [symmetric]
    by (cases e2; cases "fclose w OUTPUT_FILE t2") (simp_all add: print_def)
next
  case False
  then show ?thesis
    by (auto simp: main_def Let_def fopen_w_def print_def split: sum.splits option.splits)
qed

text \<open>
  C6. A second run on the file system the first run left gives the very result of the
  first: the same exit, the same console output and the same files, byte for byte. And
  a run from any other file system \<open>fs'\<close> exits and prints as the run from \<open>fs\<close> does,
  and when they exit normally, leaves the same output file: the file is rebuilt from the
  walk and owes nothing to what it held before.
\<close>

theorem rerun_byte_identical:
  "main w (files (snd (main w fs))) = main w fs \<and>
   fst (main w fs') = fst (main w fs) \<and>
   stdout (snd (main w fs')) = stdout (snd (main w fs)) \<and>
   (fst (main w fs) = None \<longrightarrow>
      files (snd (main w fs')) OUTPUT_FILE = files (snd (main w fs)) OUTPUT_FILE)"
  using rerun_same [of w fs] main_agree [of w fs' fs] by simp

theorem rerun_byte_identical_witness:
  "main demo_world (files (snd (main demo_world Map.empty))) = main demo_world Map.empty \<and>
   fst (main demo_world Map.empty) = None \<and>
   fst (main demo_world [OUTPUT_FILE \<mapsto> ''stale'']) = None \<and>
   files (snd (main demo_world [OUTPUT_FILE \<mapsto> ''stale''])) OUTPUT_FILE =
     Some (demo_line_second @ [newline] @ demo_line_first @ [newline])"
  using rerun_byte_identical [of demo_world Map.empty "[OUTPUT_FILE \<mapsto> ''stale'']"] demo_run
  by (simp add: demo_final_def OUTPUT_FILE_def)

section \<open>The propagation policy\<close>
















end
